theory Spec2Isabelle
  imports Main
begin

section \<open>JavaScript values\<close>

text \<open>
  The helpers of \<open>src/index.ts\<close> pass values of type \<open>any\<close> through \<open>JSON.stringify\<close>,
  \<open>JSON.parse\<close>, \<open>window.btoa\<close> and \<open>window.atob\<close>. These four functions belong to the
  browser; this part models them, from ECMAScript (the JSON object) and from the HTML
  standard (forgiving base64), so that the helpers can be run on concrete inputs.

  A value is \<open>undefined\<close>, \<open>null\<close>, a boolean, a number, a string, an array or an object
  with its own properties; \<open>Builtin f\<close> stands for a function or other object that the
  engine provides, such as the members of \<open>Object.prototype\<close>.
  \<^item> Numbers are the integers, written in decimal (as the engine writes an integer below
    \<open>10^21\<close>).
  \<^item> A string is a list of 8-bit characters: these are the strings whose code units are
    all below 256, which are also the strings that \<open>btoa\<close> accepts.
  \<^item> The properties of an object are listed in the order of their creation, and no key
    occurs twice in an object that a program can build. That an engine lists keys that
    are array indices first does not change which properties an object has, and is not
    modelled.
\<close>

datatype jsval =
    Undefined
  | Null
  | Bool bool
  | Num int
  | Str string
  | Arr "jsval list"
  | Obj "(string \<times> jsval) list"
  | Builtin string

datatype exn = SyntaxError | TypeError | InvalidCharacterError

fun truthy :: "jsval \<Rightarrow> bool" where
  "truthy Undefined = False"
| "truthy Null = False"
| "truthy (Bool b) = b"
| "truthy (Num n) = (n \<noteq> 0)"
| "truthy (Str s) = (s \<noteq> [])"
| "truthy (Arr xs) = True"
| "truthy (Obj ms) = True"
| "truthy (Builtin f) = True"

subsection \<open>Decimal numerals\<close>

definition is_digit :: "char \<Rightarrow> bool" where
  \<comment> \<open>the characters \<open>0\<close> to \<open>9\<close>, codes 48 to 57\<close>
  "is_digit c = (48 \<le> (of_char c :: nat) \<and> (of_char c :: nat) \<le> 57)"

definition digit_char :: "nat \<Rightarrow> char" where
  "digit_char d = char_of (48 + d)"

definition digit_value :: "char \<Rightarrow> nat" where
  "digit_value c = of_char c - 48"

function digits_of :: "nat \<Rightarrow> string" where
  "digits_of n = (if n < 10 then [digit_char n] else digits_of (n div 10) @ [digit_char (n mod 10)])"
  by pat_completeness auto
termination
  by (relation "measure id") auto

declare digits_of.simps [simp del]

definition nat_of_digits :: "string \<Rightarrow> nat" where
  "nat_of_digits ds = foldl (\<lambda>a c. 10 * a + digit_value c) 0 ds"

definition Number_toString :: "int \<Rightarrow> string" where
  "Number_toString n = (if n < 0 then CHR ''-'' # digits_of (nat (- n)) else digits_of (nat n))"

subsection \<open>Properties of objects and arrays\<close>

text \<open>
  \<open>CreateDataProperty\<close>: a new key is added after the existing ones, an existing key keeps
  its place and takes the new value.
\<close>

fun create_property :: "string \<Rightarrow> jsval \<Rightarrow> (string \<times> jsval) list \<Rightarrow> (string \<times> jsval) list" where
  "create_property k v [] = [(k, v)]"
| "create_property k v ((k', v') # ms) =
     (if k' = k then (k, v) # ms else (k', v') # create_property k v ms)"

definition array_index :: "string \<Rightarrow> nat option" where
  \<comment> \<open>the index that a property name denotes, when it is a canonical numeral\<close>
  "array_index k =
     (if k \<noteq> [] \<and> list_all is_digit k \<and> (k = ''0'' \<or> hd k \<noteq> CHR ''0'')
      then Some (nat_of_digits k) else None)"

fun own_property :: "jsval \<Rightarrow> string \<Rightarrow> jsval option" where
  "own_property (Obj ms) k = map_of ms k"
| "own_property (Arr xs) k =
     (if k = ''length'' then Some (Num (int (length xs)))
      else case array_index k of
             Some i \<Rightarrow> if i < length xs then Some (xs ! i) else None
           | None \<Rightarrow> None)"
| "own_property v k = None"

text \<open>
  Objects and arrays also inherit members from \<open>Object.prototype\<close> and \<open>Array.prototype\<close>
  (\<open>toString\<close>, \<open>constructor\<close>, \<open>map\<close>, ...). Which members exist is up to the JavaScript
  engine, so the prototype chain is a parameter: \<open>proto obj k\<close> is the member that \<open>obj\<close>
  inherits under the name \<open>k\<close>, if there is one.
\<close>

type_synonym prototypes = "jsval \<Rightarrow> string \<Rightarrow> jsval option"

text \<open>
  For the examples: the members that ECMAScript 2023 gives to \<open>Object.prototype\<close> and to
  \<open>Array.prototype\<close>, each as an opaque built-in object.
\<close>

definition Object_prototype :: "string list" where
  "Object_prototype =
     [''constructor'', ''__defineGetter__'', ''__defineSetter__'', ''hasOwnProperty'',
      ''__lookupGetter__'', ''__lookupSetter__'', ''isPrototypeOf'', ''propertyIsEnumerable'',
      ''toString'', ''valueOf'', ''__proto__'', ''toLocaleString'']"

definition Array_prototype :: "string list" where
  "Array_prototype =
     [''at'', ''concat'', ''constructor'', ''copyWithin'', ''entries'', ''every'', ''fill'',
      ''filter'', ''find'', ''findIndex'', ''findLast'', ''findLastIndex'', ''flat'', ''flatMap'',
      ''forEach'', ''includes'', ''indexOf'', ''join'', ''keys'', ''lastIndexOf'', ''map'', ''pop'',
      ''push'', ''reduce'', ''reduceRight'', ''reverse'', ''shift'', ''slice'', ''some'', ''sort'',
      ''splice'', ''toLocaleString'', ''toReversed'', ''toSorted'', ''toSpliced'', ''toString'',
      ''unshift'', ''values'', ''with'']"

definition standard_prototypes :: prototypes where
  "standard_prototypes obj k =
     (case obj of
        Arr xs \<Rightarrow>
          if k \<in> set Array_prototype then Some (Builtin (''Array.prototype.'' @ k))
          else if k \<in> set Object_prototype then Some (Builtin (''Object.prototype.'' @ k))
          else None
      | Obj ms \<Rightarrow>
          if k \<in> set Object_prototype then Some (Builtin (''Object.prototype.'' @ k)) else None
      | _ \<Rightarrow> None)"

definition is_object :: "jsval \<Rightarrow> bool" where
  "is_object v = (case v of Arr xs \<Rightarrow> True | Obj ms \<Rightarrow> True | Builtin f \<Rightarrow> True | _ \<Rightarrow> False)"

definition js_in :: "prototypes \<Rightarrow> string \<Rightarrow> jsval \<Rightarrow> exn + bool" where
  \<comment> \<open>the operator \<open>key in obj\<close>; it throws when the right operand is not an object\<close>
  "js_in proto key obj =
     (if is_object obj
      then Inr (own_property obj key \<noteq> None \<or> proto obj key \<noteq> None)
      else Inl TypeError)"

definition js_get :: "prototypes \<Rightarrow> jsval \<Rightarrow> string \<Rightarrow> jsval" where
  \<comment> \<open>\<open>obj[key]\<close> on an object: an own property shadows an inherited one\<close>
  "js_get proto obj key =
     (case own_property obj key of
        Some v \<Rightarrow> v
      | None \<Rightarrow> (case proto obj key of Some v \<Rightarrow> v | None \<Rightarrow> Undefined))"

subsection \<open>JSON.stringify\<close>

definition hex_char :: "nat \<Rightarrow> char" where
  \<comment> \<open>\<open>0\<close> to \<open>9\<close> and \<open>a\<close> to \<open>f\<close> (codes 97 to 102)\<close>
  "hex_char d = char_of (if d < 10 then 48 + d else 87 + d)"

definition quote_char :: "char \<Rightarrow> string" where
  "quote_char c =
     (if c = CHR 0x08 then [CHR 0x5C, CHR ''b'']
      else if c = CHR 0x09 then [CHR 0x5C, CHR ''t'']
      else if c = CHR 0x0A then [CHR 0x5C, CHR ''n'']
      else if c = CHR 0x0C then [CHR 0x5C, CHR ''f'']
      else if c = CHR 0x0D then [CHR 0x5C, CHR ''r'']
      else if c = CHR 0x22 then [CHR 0x5C, CHR 0x22]
      else if c = CHR 0x5C then [CHR 0x5C, CHR 0x5C]
      else if (of_char c :: nat) < 32
        then [CHR 0x5C, CHR ''u'', CHR ''0'', CHR ''0'',
              hex_char (of_char c div 16), hex_char (of_char c mod 16)]
      else [c])"

definition QuoteJSONString :: "string \<Rightarrow> string" where
  "QuoteJSONString s = CHR 0x22 # concat (map quote_char s) @ [CHR 0x22]"

fun join_commas :: "string list \<Rightarrow> string" where
  "join_commas [] = []"
| "join_commas [s] = s"
| "join_commas (s # t # ss) = s @ CHR '','' # join_commas (t # ss)"

text \<open>
  \<open>SerializeJSONProperty\<close> answers \<open>undefined\<close> (here \<open>None\<close>) for \<open>undefined\<close> and for
  functions. An array element without a text is written as \<open>null\<close>; an object member
  without a text is left out.
\<close>

fun SerializeJSONProperty :: "jsval \<Rightarrow> string option"
  and SerializeJSONArray :: "jsval list \<Rightarrow> string list"
  and SerializeJSONObject :: "(string \<times> jsval) list \<Rightarrow> string list"
where
  "SerializeJSONProperty Undefined = None"
| "SerializeJSONProperty Null = Some ''null''"
| "SerializeJSONProperty (Bool b) = Some (if b then ''true'' else ''false'')"
| "SerializeJSONProperty (Num n) = Some (Number_toString n)"
| "SerializeJSONProperty (Str s) = Some (QuoteJSONString s)"
| "SerializeJSONProperty (Arr xs) = Some (CHR ''['' # join_commas (SerializeJSONArray xs) @ '']'')"
| "SerializeJSONProperty (Obj ms) = Some (CHR ''{'' # join_commas (SerializeJSONObject ms) @ ''}'')"
| "SerializeJSONProperty (Builtin f) = None"
| "SerializeJSONArray [] = []"
| "SerializeJSONArray (x # xs) =
     (case SerializeJSONProperty x of None \<Rightarrow> ''null'' | Some t \<Rightarrow> t) # SerializeJSONArray xs"
| "SerializeJSONObject [] = []"
| "SerializeJSONObject ((k, v) # ms) =
     (case SerializeJSONProperty v of
        None \<Rightarrow> SerializeJSONObject ms
      | Some t \<Rightarrow> (QuoteJSONString k @ CHR '':'' # t) # SerializeJSONObject ms)"

definition JSON_stringify :: "jsval \<Rightarrow> string option" where
  "JSON_stringify v = SerializeJSONProperty v"

definition ToString_undefined :: "string option \<Rightarrow> string" where
  \<comment> \<open>a string, or \<open>undefined\<close>, where the browser expects a string\<close>
  "ToString_undefined r = (case r of None \<Rightarrow> ''undefined'' | Some s \<Rightarrow> s)"

definition ToString_null :: "string option \<Rightarrow> string" where
  \<comment> \<open>a string, or \<open>null\<close>, where the browser expects a string\<close>
  "ToString_null r = (case r of None \<Rightarrow> ''null'' | Some s \<Rightarrow> s)"


subsection \<open>JSON.parse\<close>

definition json_ws :: "char \<Rightarrow> bool" where
  "json_ws c = (c = CHR 0x09 \<or> c = CHR 0x0A \<or> c = CHR 0x0D \<or> c = CHR 0x20)"

definition skip_ws :: "string \<Rightarrow> string" where
  "skip_ws s = dropWhile json_ws s"

definition hex_value :: "char \<Rightarrow> nat option" where
  \<comment> \<open>a hexadecimal digit: \<open>0\<close> to \<open>9\<close>, \<open>a\<close> to \<open>f\<close> (97 to 102) or \<open>A\<close> to \<open>F\<close> (65 to 70)\<close>
  "hex_value c =
     (let n = (of_char c :: nat)
      in if is_digit c then Some (n - 48)
         else if 97 \<le> n \<and> n \<le> 102 then Some (n - 87)
         else if 65 \<le> n \<and> n \<le> 70 then Some (n - 55)
         else None)"

definition hex4 :: "char \<Rightarrow> char \<Rightarrow> char \<Rightarrow> char \<Rightarrow> nat option" where
  "hex4 a b c d =
     (case (hex_value a, hex_value b, hex_value c, hex_value d) of
        (Some x, Some y, Some z, Some w) \<Rightarrow> Some (((x * 16 + y) * 16 + z) * 16 + w)
      | _ \<Rightarrow> None)"

definition unescape :: "char \<Rightarrow> char option" where
  "unescape e =
     (if e = CHR 0x22 then Some (CHR 0x22)
      else if e = CHR 0x5C then Some (CHR 0x5C)
      else if e = CHR ''/'' then Some (CHR ''/'')
      else if e = CHR ''b'' then Some (CHR 0x08)
      else if e = CHR ''f'' then Some (CHR 0x0C)
      else if e = CHR ''n'' then Some (CHR 0x0A)
      else if e = CHR ''r'' then Some (CHR 0x0D)
      else if e = CHR ''t'' then Some (CHR 0x09)
      else None)"

definition push_char :: "char \<Rightarrow> (string \<times> string) option \<Rightarrow> (string \<times> string) option" where
  "push_char c r = (case r of None \<Rightarrow> None | Some (s, rest) \<Rightarrow> Some (c # s, rest))"

text \<open>
  The characters of a string literal after its opening quote, up to the closing quote.
  An escape \<open>\uXXXX\<close> of a code unit from 256 on denotes a character that the strings of
  this model do not have; such a text is outside the model and is not accepted.
\<close>

fun parse_string_body :: "string \<Rightarrow> (string \<times> string) option" where
  "parse_string_body [] = None"
| "parse_string_body (c # cs) =
     (if c = CHR 0x22 then Some ([], cs)
      else if c = CHR 0x5C then
        (case cs of
           [] \<Rightarrow> None
         | e # r \<Rightarrow>
             if e = CHR ''u'' then
               (case r of
                  h1 # h2 # h3 # h4 # r' \<Rightarrow>
                    (case hex4 h1 h2 h3 h4 of
                       None \<Rightarrow> None
                     | Some n \<Rightarrow> if n < 256 then push_char (char_of n) (parse_string_body r') else None)
                | _ \<Rightarrow> None)
             else
               (case unescape e of
                  None \<Rightarrow> None
                | Some ch \<Rightarrow> push_char ch (parse_string_body r)))
      else if (of_char c :: nat) < 32 then None
      else push_char c (parse_string_body cs))"

text \<open>
  A number literal: an optional minus sign and the digits of an integer without a leading
  zero. Numbers are integers here, so a literal that goes on with a fraction or an
  exponent is outside the model and is not accepted.
\<close>

definition parse_number :: "string \<Rightarrow> (int \<times> string) option" where
  "parse_number s =
     (let (negative, s1) = (case s of [] \<Rightarrow> (False, s) | c # r \<Rightarrow> if c = CHR ''-'' then (True, r) else (False, s));
          (ds, rest) = (case s1 of [] \<Rightarrow> ([], [])
                        | c # r \<Rightarrow> if c = CHR ''0'' then ([c], r)
                                   else (takeWhile is_digit s1, dropWhile is_digit s1))
      in if ds = [] then None
         else if rest \<noteq> [] \<and> hd rest \<in> set ''.eE'' then None
         else Some (if negative then - int (nat_of_digits ds) else int (nat_of_digits ds), rest))"

text \<open>
  The recursive descent over values, array elements and object members. Every call
  passes on one unit less of fuel than it was given; \<open>JSON_parse\<close> starts with more than
  the length of the text.
\<close>

fun parse_value :: "nat \<Rightarrow> string \<Rightarrow> (jsval \<times> string) option"
  and parse_elements :: "nat \<Rightarrow> string \<Rightarrow> (jsval list \<times> string) option"
  and parse_members :: "nat \<Rightarrow> string \<Rightarrow> ((string \<times> jsval) list \<times> string) option"
where
  "parse_value 0 s = None"
| "parse_value (Suc n) s =
     (case skip_ws s of
        [] \<Rightarrow> None
      | c # r \<Rightarrow>
          if c = CHR ''{'' then
            (case skip_ws r of
               [] \<Rightarrow> None
             | c' # r' \<Rightarrow>
                 if c' = CHR ''}'' then Some (Obj [], r')
                 else (case parse_members n (c' # r') of
                         None \<Rightarrow> None
                       | Some (ms, r'') \<Rightarrow>
                           Some (Obj (fold (\<lambda>(k, v). create_property k v) ms []), r'')))
          else if c = CHR ''['' then
            (case skip_ws r of
               [] \<Rightarrow> None
             | c' # r' \<Rightarrow>
                 if c' = CHR '']'' then Some (Arr [], r')
                 else (case parse_elements n (c' # r') of
                         None \<Rightarrow> None
                       | Some (xs, r'') \<Rightarrow> Some (Arr xs, r'')))
          else if c = CHR 0x22 then
            (case parse_string_body r of
               None \<Rightarrow> None
             | Some (str, r') \<Rightarrow> Some (Str str, r'))
          else if take 4 (c # r) = ''null'' then Some (Null, drop 4 (c # r))
          else if take 4 (c # r) = ''true'' then Some (Bool True, drop 4 (c # r))
          else if take 5 (c # r) = ''false'' then Some (Bool False, drop 5 (c # r))
          else (case parse_number (c # r) of
                  None \<Rightarrow> None
                | Some (i, r') \<Rightarrow> Some (Num i, r')))"
| "parse_elements 0 s = None"
| "parse_elements (Suc n) s =
     (case parse_value n s of
        None \<Rightarrow> None
      | Some (x, r) \<Rightarrow>
          (case skip_ws r of
             [] \<Rightarrow> None
           | c # r' \<Rightarrow>
               if c = CHR '','' then
                 (case parse_elements n r' of
                    None \<Rightarrow> None
                  | Some (xs, r'') \<Rightarrow> Some (x # xs, r''))
               else if c = CHR '']'' then Some ([x], r')
               else None))"
| "parse_members 0 s = None"
| "parse_members (Suc n) s =
     (case skip_ws s of
        [] \<Rightarrow> None
      | c # r \<Rightarrow>
          if c \<noteq> CHR 0x22 then None
          else
            (case parse_string_body r of
               None \<Rightarrow> None
             | Some (k, r1) \<Rightarrow>
                 (case skip_ws r1 of
                    [] \<Rightarrow> None
                  | c1 # r2 \<Rightarrow>
                      if c1 \<noteq> CHR '':'' then None
                      else
                        (case parse_value n r2 of
                           None \<Rightarrow> None
                         | Some (v, r3) \<Rightarrow>
                             (case skip_ws r3 of
                                [] \<Rightarrow> None
                              | c3 # r4 \<Rightarrow>
                                  if c3 = CHR '','' then
                                    (case parse_members n r4 of
                                       None \<Rightarrow> None
                                     | Some (ms, r5) \<Rightarrow> Some ((k, v) # ms, r5))
                                  else if c3 = CHR ''}'' then Some ([(k, v)], r4)
                                  else None)))))"

definition JSON_parse :: "string \<Rightarrow> exn + jsval" where
  "JSON_parse text =
     (case parse_value (Suc (length text)) text of
        None \<Rightarrow> Inl SyntaxError
      | Some (v, rest) \<Rightarrow> if skip_ws rest = [] then Inr v else Inl SyntaxError)"

subsection \<open>What may stand next to the text of a value\<close>




subsection \<open>window.btoa and window.atob\<close>

definition b64_digit :: "nat \<Rightarrow> char" where
  \<comment> \<open>the alphabet \<open>A\<close>-\<open>Z\<close> (from code 65), \<open>a\<close>-\<open>z\<close> (from 97), \<open>0\<close>-\<open>9\<close> (from 48), \<open>+\<close>, \<open>/\<close>\<close>
  "b64_digit n =
     (if n < 26 then char_of (n + 65)
      else if n < 52 then char_of (n + 71)
      else if n < 62 then char_of (n - 4)
      else if n = 62 then CHR ''+''
      else CHR ''/'')"

definition b64_value :: "char \<Rightarrow> nat option" where
  "b64_value c =
     (let n = (of_char c :: nat)
      in if 65 \<le> n \<and> n \<le> 90 then Some (n - 65)
         else if 97 \<le> n \<and> n \<le> 122 then Some (n - 71)
         else if 48 \<le> n \<and> n \<le> 57 then Some (n + 4)
         else if c = CHR ''+'' then Some 62
         else if c = CHR ''/'' then Some 63
         else None)"

text \<open>
  \<open>btoa\<close> throws on a code unit from 256 on; the strings of the model have none. Three
  bytes \<open>x\<close>, \<open>y\<close>, \<open>z\<close> give four six-bit groups: the upper six bits of \<open>x\<close>; the lower two
  of \<open>x\<close> with the upper four of \<open>y\<close>; the lower four of \<open>y\<close> with the upper two of \<open>z\<close>; the
  lower six of \<open>z\<close>.
\<close>

fun btoa :: "string \<Rightarrow> string" where
  "btoa [] = []"
| "btoa [a] =
     (let x = (of_char a :: nat)
      in [b64_digit (x div 4), b64_digit (x mod 4 * 16), CHR ''='', CHR ''=''])"
| "btoa [a, b] =
     (let x = (of_char a :: nat); y = (of_char b :: nat)
      in [b64_digit (x div 4), b64_digit (x mod 4 * 16 + y div 16), b64_digit (y mod 16 * 4),
          CHR ''=''])"
| "btoa (a # b # c # r) =
     (let x = (of_char a :: nat); y = (of_char b :: nat); z = (of_char c :: nat)
      in b64_digit (x div 4) # b64_digit (x mod 4 * 16 + y div 16) #
         b64_digit (y mod 16 * 4 + z div 64) # b64_digit (z mod 64) # btoa r)"

definition ascii_ws :: "char \<Rightarrow> bool" where
  "ascii_ws c = (c = CHR 0x09 \<or> c = CHR 0x0A \<or> c = CHR 0x0C \<or> c = CHR 0x0D \<or> c = CHR 0x20)"

definition strip_padding :: "string \<Rightarrow> string" where
  \<comment> \<open>a text whose length is a multiple of four loses one or two final \<open>=\<close>\<close>
  "strip_padding d =
     (if length d mod 4 = 0 then
        (case rev d of
           [] \<Rightarrow> d
         | x # r \<Rightarrow>
             if x = CHR ''='' then
               (case r of
                  [] \<Rightarrow> rev r
                | y # r' \<Rightarrow> if y = CHR ''='' then rev r' else rev r)
             else d)
      else d)"

text \<open>
  Decoding collects six bits per character and emits a byte for every eight; of twelve
  bits left at the end the last four are dropped, of eighteen the last two.
\<close>

fun b64_decode :: "nat list \<Rightarrow> string" where
  "b64_decode (s1 # s2 # s3 # s4 # r) =
     char_of (s1 * 4 + s2 div 16) # char_of (s2 mod 16 * 16 + s3 div 4) #
     char_of (s3 mod 4 * 64 + s4) # b64_decode r"
| "b64_decode [s1, s2, s3] = [char_of (s1 * 4 + s2 div 16), char_of (s2 mod 16 * 16 + s3 div 4)]"
| "b64_decode [s1, s2] = [char_of (s1 * 4 + s2 div 16)]"
| "b64_decode r = []"

definition atob :: "string \<Rightarrow> exn + string" where
  "atob encoded =
     (let d = strip_padding (filter (\<lambda>c. \<not> ascii_ws c) encoded)
      in if length d mod 4 = 1 then Inl InvalidCharacterError
         else if list_ex (\<lambda>c. b64_value c = None) d then Inl InvalidCharacterError
         else Inr (b64_decode (map (\<lambda>c. the (b64_value c)) d)))"



section \<open>The browser state that the helpers of \<open>src/index.ts\<close> work on\<close>

text \<open>
  \<open>window.localStorage\<close> is a Storage object: a finite table from string keys to string
  values, read with \<open>getItem\<close> (which answers \<open>null\<close> for a key that has no entry),
  written with \<open>setItem\<close>, and emptied with \<open>removeItem\<close> and \<open>clear\<close>.
\<close>

type_synonym storage = "string \<rightharpoonup> string"

definition getItem :: "storage \<Rightarrow> string \<Rightarrow> string option" where
  \<comment> \<open>\<open>None\<close> is JavaScript's \<open>null\<close>.\<close>
  "getItem ls key = ls key"

definition setItem :: "storage \<Rightarrow> string \<Rightarrow> string \<Rightarrow> storage" where
  "setItem ls key text = ls(key \<mapsto> text)"

definition removeItem :: "storage \<Rightarrow> string \<Rightarrow> storage" where
  "removeItem ls key = ls(key := None)"

definition clear :: "storage \<Rightarrow> storage" where
  "clear ls = Map.empty"

section \<open>storageManager.get and storageManager.set\<close>

text \<open>
  \<^verbatim>\<open>if ([null, undefined].includes(value)) return defaultValue; else return value\<close>
  is shared by \<open>storageManager.get\<close> and \<open>qsm.read\<close>.
\<close>

definition or_default :: "jsval \<Rightarrow> jsval \<Rightarrow> jsval" where
  "or_default defaultValue v = (if v = Null \<or> v = Undefined then defaultValue else v)"

text \<open>
  The body of the \<open>try\<close> block of \<open>storageManager.get\<close>, and the function with its
  \<open>catch\<close>. \<open>JSON.parse\<close> is given what \<open>getItem\<close> answers, a string or \<open>null\<close>. A default
  that the caller leaves out is \<open>Undefined\<close>.
\<close>

definition storageManager_get_try :: "storage \<Rightarrow> string \<Rightarrow> jsval \<Rightarrow> exn + jsval" where
  "storageManager_get_try ls key defaultValue =
     (case JSON_parse (ToString_null (getItem ls key)) of
        Inl error \<Rightarrow> Inl error
      | Inr v \<Rightarrow> Inr (or_default defaultValue v))"

definition storageManager_get :: "storage \<Rightarrow> string \<Rightarrow> jsval \<Rightarrow> jsval" where
  "storageManager_get ls key defaultValue =
     (case storageManager_get_try ls key defaultValue of
        Inl error \<Rightarrow> defaultValue
      | Inr r \<Rightarrow> r)"

definition storageManager_set :: "storage \<Rightarrow> string \<Rightarrow> jsval \<Rightarrow> storage" where
  \<comment> \<open>\<open>setItem\<close> is given what \<open>JSON.stringify\<close> answers, a string or \<open>undefined\<close>\<close>
  "storageManager_set ls key v = setItem ls key (ToString_undefined (JSON_stringify v))"

section \<open>qsm\<close>

text \<open>
  \<open>qsm.read\<close> reads \<open>window.location.search\<close>, which is an argument of the model: the
  query component of the current location, with its leading \<open>?\<close> when it is not empty.
  The key is optional (\<open>None\<close> when it is left out). The condition
  \<open>key && obj && key in obj\<close> is evaluated from left to right and stops at the first falsy
  operand.
\<close>

definition qsm_decode :: "string \<Rightarrow> exn + jsval" where
  \<comment> \<open>\<open>JSON.parse(window.atob(window.location.search.slice('?'.length)))\<close>\<close>
  "qsm_decode search =
     (case atob (drop (length ''?'') search) of
        Inl error \<Rightarrow> Inl error
      | Inr text \<Rightarrow> JSON_parse text)"

definition qsm_read_try :: "prototypes \<Rightarrow> string \<Rightarrow> string option \<Rightarrow> jsval \<Rightarrow> exn + jsval" where
  "qsm_read_try proto search key defaultValue =
     (case qsm_decode search of
        Inl error \<Rightarrow> Inl error
      | Inr obj \<Rightarrow>
          (case key of
             None \<Rightarrow> Inr (or_default defaultValue obj)
           | Some k \<Rightarrow>
               if k \<noteq> [] \<and> truthy obj then
                 (case js_in proto k obj of
                    Inl error \<Rightarrow> Inl error
                  | Inr present \<Rightarrow>
                      if present then Inr (or_default defaultValue (js_get proto obj k))
                      else Inr (or_default defaultValue obj))
               else Inr (or_default defaultValue obj)))"

definition qsm_read :: "prototypes \<Rightarrow> string \<Rightarrow> string option \<Rightarrow> jsval \<Rightarrow> jsval" where
  "qsm_read proto search key defaultValue =
     (case qsm_read_try proto search key defaultValue of
        Inl error \<Rightarrow> defaultValue
      | Inr r \<Rightarrow> r)"

definition qsm_gen :: "jsval \<Rightarrow> string \<Rightarrow> string" where
  \<comment> \<open>the parameter \<open>content\<close> has the default \<open>{}\<close>, which replaces \<open>undefined\<close>\<close>
  "qsm_gen content prefix =
     (let content1 = (if content = Undefined then Obj [] else content)
      in prefix @ ''?'' @ btoa (ToString_undefined (JSON_stringify content1)))"

section \<open>storageManager.clear\<close>

text \<open>
  \<^verbatim>\<open>clear: (key?: string) => (key ? window.localStorage.removeItem(key) : window.localStorage.clear())\<close>

  The optional argument is a \<open>string option\<close>; \<open>None\<close> is the omitted argument. The
  condition \<open>key ?\<close> tests truthiness: an omitted key and the empty string are both falsy.
\<close>

definition storageManager_clear :: "string option \<Rightarrow> storage \<Rightarrow> storage" where
  "storageManager_clear key ls =
     (case key of
        None \<Rightarrow> clear ls
      | Some k \<Rightarrow> if k \<noteq> [] then removeItem ls k else clear ls)"

section \<open>themeManager\<close>

text \<open>
  The theme controller reads the operating system's preference through
  \<open>window.matchMedia\<close>, keeps the theme in \<open>localStorage\<close> under \<open>APP_THEME\<close> and mirrors it
  in the \<open>data-theme\<close> attribute of \<open>document.body\<close>. The preference is an input of the
  model: \<open>None\<close> when the browser has no \<open>matchMedia\<close>, otherwise \<open>Some m\<close> with \<open>m\<close> the
  \<open>matches\<close> field of the query \<open>(prefers-color-scheme: dark)\<close>.
\<close>

definition themeManager_key :: string where
  "themeManager_key = ''APP_THEME''"

record page =
  localStorage :: storage
  body_data_theme :: "string option"

definition themeManager_get :: "bool option \<Rightarrow> storage \<Rightarrow> string" where
  "themeManager_get matchMedia ls =
     (let preferredTheme = (if matchMedia = Some True then ''dark'' else ''light'');
          currentTheme =
            (case getItem ls themeManager_key of
               None \<Rightarrow> preferredTheme
             | Some stored \<Rightarrow> if stored \<noteq> [] then stored else preferredTheme)
      in if currentTheme \<noteq> ''light'' \<and> currentTheme \<noteq> ''dark'' then ''light''
         else currentTheme)"

definition themeManager_init :: "bool option \<Rightarrow> page \<Rightarrow> page" where
  "themeManager_init matchMedia pg =
     (let currentTheme = themeManager_get matchMedia (localStorage pg)
      in \<lparr>localStorage = setItem (localStorage pg) themeManager_key currentTheme,
          body_data_theme = Some currentTheme\<rparr>)"

definition themeManager_set :: "string \<Rightarrow> page \<Rightarrow> page" where
  "themeManager_set newTheme pg =
     \<lparr>localStorage = setItem (localStorage pg) themeManager_key newTheme,
      body_data_theme = Some newTheme\<rparr>"

definition themeManager_toggle :: "bool option \<Rightarrow> page \<Rightarrow> page" where
  "themeManager_toggle matchMedia pg =
     (let currentTheme = themeManager_get matchMedia (localStorage pg);
          altTheme = (if currentTheme = ''light'' then ''dark'' else ''light'')
      in \<lparr>localStorage = setItem (localStorage pg) themeManager_key altTheme,
          body_data_theme = Some altTheme\<rparr>)"

section \<open>scrollBack\<close>

text \<open>
  \<open>scrollPositions\<close> is the module's registry from page paths to scroll offsets. Both
  operations read the browser when they run: \<open>save\<close> reads \<open>window.location.pathname\<close> and
  \<open>window.scrollY\<close>, and the callback that \<open>init\<close> hands to \<open>setTimeout\<close> reads
  \<open>window.location.pathname\<close> at the moment the timer fires. These readings are arguments
  of the model. The state is the registry together with the list of \<open>window.scrollTo\<close>
  calls issued so far; the type of offsets is left open.

  The registry is only ever indexed by \<open>window.location.pathname\<close>. The path of a page
  is not the name of a member of \<open>Object.prototype\<close> (the path of an http, https or file
  location begins with \<open>/\<close>), so \<open>page in scrollPositions\<close> is membership among the
  registry's own keys, the domain of the map.
\<close>

record 'n scroll_state =
  scrollPositions :: "string \<rightharpoonup> 'n"
  scrollTo_calls :: "'n list"

definition scrollBack_save :: "string \<Rightarrow> 'n \<Rightarrow> 'n scroll_state \<Rightarrow> 'n scroll_state" where
  \<comment> \<open>\<open>scrollPositions[window.location.pathname] = window.scrollY\<close>\<close>
  "scrollBack_save pathname scrollY st =
     st\<lparr>scrollPositions := (scrollPositions st)(pathname \<mapsto> scrollY)\<rparr>"

definition scrollBack_init_timeout :: "string \<Rightarrow> 'n scroll_state \<Rightarrow> 'n scroll_state" where
  \<comment> \<open>the body of the callback of \<open>scrollBack.init\<close>; \<open>scrollTo(0, y)\<close> is logged as \<open>y\<close>\<close>
  "scrollBack_init_timeout pathname st =
     (let page = pathname
      in case scrollPositions st page of
           Some y \<Rightarrow>
             \<lparr>scrollPositions = (scrollPositions st)(page := None),
              scrollTo_calls = scrollTo_calls st @ [y]\<rparr>
         | None \<Rightarrow> st)"

text \<open>
  A run of the page is a sequence of events, each carrying what it read from the browser.
  \<open>Init p\<close> is the callback of an \<open>init()\<close> firing while the location's path is \<open>p\<close>.
\<close>

datatype 'n scroll_event = Save string 'n | Init string

fun scroll_step :: "'n scroll_event \<Rightarrow> 'n scroll_state \<Rightarrow> 'n scroll_state" where
  "scroll_step (Save p y) st = scrollBack_save p y st"
| "scroll_step (Init p) st = scrollBack_init_timeout p st"

definition scroll_run :: "'n scroll_event list \<Rightarrow> 'n scroll_state \<Rightarrow> 'n scroll_state" where
  "scroll_run evs st = fold scroll_step evs st"

fun is_save_at :: "string \<Rightarrow> 'n scroll_event \<Rightarrow> bool" where
  "is_save_at p (Save q y) = (q = p)"
| "is_save_at p (Init q) = False"

fun is_event_at :: "string \<Rightarrow> 'n scroll_event \<Rightarrow> bool" where
  "is_event_at p (Save q y) = (q = p)"
| "is_event_at p (Init q) = (q = p)"

section \<open>audioPlayer\<close>

text \<open>
  The closure keeps \<open>urls\<close>, a registry from URL strings to audio elements. The model
  numbers the elements that \<open>document.createElement('audio')\<close> has produced for the
  registry in order of construction: \<open>elements\<close> lists the \<open>src\<close> given to each, and a
  handle is an index into that list. What is done to an element is recorded in \<open>calls\<close>.

  A URL is any string that the caller passes, so it may be the name of a member that the
  registry, an object created as \<open>{}\<close>, inherits (\<open>proto (Obj []) url\<close>). Then
  \<open>url in urls\<close> holds without an entry, no element is constructed, and \<open>urls[url]\<close> is the
  inherited member, which has no \<open>play\<close> and no \<open>pause\<close>: calling them throws. The
  result of a call is the exception, if any, and the state that the call leaves.
\<close>

datatype status = load | play | pause | stop

datatype element_call = Play | Pause | SetCurrentTime nat

record audio_state =
  urls :: "string \<rightharpoonup> nat"
  elements :: "string list"
  calls :: "(nat \<times> element_call) list"

definition audio_initial :: audio_state where
  "audio_initial = \<lparr>urls = Map.empty, elements = [], calls = []\<rparr>"

definition audioPlayer ::
  "prototypes \<Rightarrow> string \<Rightarrow> status option \<Rightarrow> audio_state \<Rightarrow> exn option \<times> audio_state" where
  "audioPlayer proto url status st =
     (if url = [] then (None, st)
      else
        let st1 =
              (if urls st url \<noteq> None \<or> proto (Obj []) url \<noteq> None then st
               else st\<lparr>urls := (urls st)(url \<mapsto> length (elements st)),
                       elements := elements st @ [url]\<rparr>);
            status1 = (case status of None \<Rightarrow> play | Some s \<Rightarrow> s)
        in if status1 = load then (None, st1)
           else
             (case urls st1 url of
                None \<Rightarrow> (Some TypeError, st1)
              | Some audioEl \<Rightarrow>
                  (None,
                   case status1 of
                     load \<Rightarrow> st1
                   | play \<Rightarrow> st1\<lparr>calls := calls st1 @ [(audioEl, Play)]\<rparr>
                   | pause \<Rightarrow> st1\<lparr>calls := calls st1 @ [(audioEl, Pause)]\<rparr>
                   | stop \<Rightarrow>
                       st1\<lparr>calls := calls st1 @ [(audioEl, Pause), (audioEl, SetCurrentTime 0)]\<rparr>)))"

definition audio_run ::
  "prototypes \<Rightarrow> (string \<times> status option) list \<Rightarrow> audio_state \<Rightarrow> audio_state" where
  \<comment> \<open>a sequence of calls; an exception ends its call, not the page\<close>
  "audio_run proto cs st = fold (\<lambda>(url, status) st. snd (audioPlayer proto url status st)) cs st"

definition audio_inv :: "audio_state \<Rightarrow> bool" where
  \<comment> \<open>every registry entry is the element constructed for its URL, and every element is
      registered under its \<open>src\<close>\<close>
  "audio_inv st =
     ((\<forall>u h. urls st u = Some h \<longrightarrow> h < length (elements st) \<and> elements st ! h = u) \<and>
      (\<forall>h < length (elements st). urls st (elements st ! h) = Some h))"

section \<open>Reading back what JSON.stringify writes\<close>

subsection \<open>Numerals\<close>














subsection \<open>String literals\<close>





subsection \<open>One step of the parser on each kind of value\<close>


lemma skip_ws_Cons: "\<not> json_ws c \<Longrightarrow> skip_ws (c # r) = c # r"
  by (simp add: skip_ws_def)

lemma skip_ws_Nil: "skip_ws [] = []"
  by (simp add: skip_ws_def)












declare parse_value.simps [simp del] parse_elements.simps [simp del] parse_members.simps [simp del]

subsection \<open>How the texts of values begin\<close>










subsection \<open>Values, array elements and object members\<close>








section \<open>Reading back what btoa writes\<close>

















section \<open>The fuel of the parser is enough\<close>

text \<open>
  A parse that succeeds has consumed at least one character, and it succeeds with the same
  result on any fuel above the number of characters it has consumed.
\<close>

lemma length_skip_ws: "length (skip_ws s) \<le> length s"
  by (simp add: skip_ws_def length_dropWhile_le)

lemma skip_ws_ConsD: "skip_ws s = c # r \<Longrightarrow> length r < length s"
  using length_skip_ws [of s] by simp

lemma push_char_SomeD:
  "push_char c p = Some (str, r) \<Longrightarrow> \<exists>str'. p = Some (str', r)"
  by (auto simp add: push_char_def split: option.splits)

lemma parse_string_body_length:
  "parse_string_body s = Some (str, r) \<Longrightarrow> length r < length s"
proof (induction s arbitrary: str rule: parse_string_body.induct)
  case 1
  then show ?case by simp
next
  case (2 c cs)
  show ?case
  proof (cases "c = CHR 0x22")
    case True
    with "2.prems" show ?thesis by simp
  next
    case quote: False
    show ?thesis
    proof (cases "c = CHR 0x5C")
      case False
      with quote "2.prems" obtain str' where "parse_string_body cs = Some (str', r)"
        by (auto split: if_splits dest: push_char_SomeD)
      with "2.IH"(3) [OF quote False] "2.prems" quote False show ?thesis
        by (auto split: if_splits)
    next
      case True
      then obtain e r0 where cs: "cs = e # r0"
        using "2.prems" by (cases cs) auto
      show ?thesis
      proof (cases "e = CHR ''u''")
        case False
        with True cs "2.prems" obtain ch str' where ch: "unescape e = Some ch"
          and p: "parse_string_body r0 = Some (str', r)"
          by (auto split: option.splits dest: push_char_SomeD)
        from "2.IH"(2) [OF quote True cs False ch p] show ?thesis
          using cs by simp
      next
        case u: True
        with True cs "2.prems" obtain h1 h2 h3 h4 r' n str' where
          r0: "r0 = h1 # h2 # h3 # h4 # r'" and h: "hex4 h1 h2 h3 h4 = Some n" "n < 256"
          and p: "parse_string_body r' = Some (str', r)"
          by (auto split: list.splits option.splits if_splits dest: push_char_SomeD)
        from "2.IH"(1) [OF quote True cs u r0 refl refl refl h(1) h(2) p] show ?thesis
          using cs r0 by simp
      qed
    qed
  qed
qed

lemma length_dropWhile_less:
  "takeWhile P t \<noteq> [] \<Longrightarrow> length (dropWhile P t) < length t"
  by (cases t) (auto simp add: less_Suc_eq_le length_dropWhile_le split: if_splits)

lemma parse_number_length:
  assumes "parse_number s = Some (i, r)"
  shows "length r < length s"
proof -
  define s1 where "s1 = (case s of [] \<Rightarrow> s | c # r \<Rightarrow> if c = CHR ''-'' then r else s)"
  define split where "split = (case s1 of [] \<Rightarrow> ([], [])
                        | c # r \<Rightarrow> if c = CHR ''0'' then ([c], r)
                                   else (takeWhile is_digit s1, dropWhile is_digit s1))"
  have s1: "length s1 \<le> length s"
    by (auto simp add: s1_def split: list.splits)
  have shape: "parse_number s =
      (if fst split = [] then None
       else if snd split \<noteq> [] \<and> hd (snd split) \<in> set ''.eE'' then None
       else Some (if s \<noteq> [] \<and> hd s = CHR ''-'' then - int (nat_of_digits (fst split))
                  else int (nat_of_digits (fst split)), snd split))"
    unfolding parse_number_def split_def s1_def
    by (auto simp add: Let_def split: list.splits prod.splits simp del: takeWhile.simps dropWhile.simps)
  from assms have ds: "fst split \<noteq> []" and r: "r = snd split"
    unfolding shape by (auto split: if_splits)
  have "length (snd split) < length s1"
  proof (cases s1)
    case Nil
    with ds show ?thesis by (simp add: split_def)
  next
    case (Cons c r')
    show ?thesis
    proof (cases "c = CHR ''0''")
      case True
      with Cons show ?thesis by (simp add: split_def)
    next
      case False
      with Cons ds have "takeWhile is_digit s1 \<noteq> []" by (simp add: split_def)
      then have "length (dropWhile is_digit s1) < length s1" by (rule length_dropWhile_less)
      with Cons False show ?thesis by (simp add: split_def)
    qed
  qed
  with s1 r show ?thesis by simp
qed

lemma take_literal_length: "take n s = lit \<Longrightarrow> length lit = n \<Longrightarrow> 0 < n \<Longrightarrow> length (drop n s) < length s"
  by (cases "n \<le> length s") auto

lemma parse_value_cases:
  assumes "parse_value (Suc n) s = Some (v, r)"
  obtains
    (leaf) "length r < length s" "\<And>m. parse_value (Suc m) s = Some (v, r)"
  | (object) r0 c' r' ms where "skip_ws s = CHR ''{'' # r0" "skip_ws r0 = c' # r'" "c' \<noteq> CHR ''}''"
      "parse_members n (c' # r') = Some (ms, r)" "v = Obj (fold (\<lambda>(k, v). create_property k v) ms [])"
  | (array) r0 c' r' xs where "skip_ws s = CHR ''['' # r0" "skip_ws r0 = c' # r'" "c' \<noteq> CHR '']''"
      "parse_elements n (c' # r') = Some (xs, r)" "v = Arr xs"
proof -
  obtain c r0 where s: "skip_ws s = c # r0"
    using assms by (cases "skip_ws s") (auto simp add: parse_value.simps)
  have len: "length r0 < length s" using skip_ws_ConsD [OF s] .
  show ?thesis
  proof (cases "c = CHR ''{''")
    case True
    then obtain c' r' where r0: "skip_ws r0 = c' # r'"
      using assms s by (cases "skip_ws r0") (auto simp add: parse_value.simps)
    show ?thesis
    proof (cases "c' = CHR ''}''")
      case close: True
      have "parse_value (Suc m) s = Some (v, r)" for m
        using assms s True r0 close by (simp add: parse_value.simps)
      moreover have "r = r'" using assms s True r0 close by (simp add: parse_value.simps)
      ultimately show ?thesis using leaf len skip_ws_ConsD [OF r0] by simp
    next
      case False
      with assms s True r0 obtain ms where "parse_members n (c' # r') = Some (ms, r)"
        "v = Obj (fold (\<lambda>(k, v). create_property k v) ms [])"
        by (auto simp add: parse_value.simps split: option.splits)
      with s True r0 False show ?thesis
        by (intro object [of r0 c' r' ms]) simp_all
    qed
  next
    case brace: False
    show ?thesis
    proof (cases "c = CHR ''[''")
      case True
      then obtain c' r' where r0: "skip_ws r0 = c' # r'"
        using assms s by (cases "skip_ws r0") (auto simp add: parse_value.simps)
      show ?thesis
      proof (cases "c' = CHR '']''")
        case close: True
        have "parse_value (Suc m) s = Some (v, r)" for m
          using assms s True r0 close by (simp add: parse_value.simps)
        moreover have "r = r'" using assms s True r0 close by (simp add: parse_value.simps)
        ultimately show ?thesis using leaf len skip_ws_ConsD [OF r0] by simp
      next
        case False
        with assms s True r0 brace obtain xs where "parse_elements n (c' # r') = Some (xs, r)"
          "v = Arr xs"
          by (auto simp add: parse_value.simps split: option.splits)
        with s True r0 False show ?thesis
          by (intro array [of r0 c' r' xs]) simp_all
      qed
    next
      case bracket: False
      have same: "parse_value (Suc m) s = parse_value (Suc n) s" for m
        using s brace bracket by (simp add: parse_value.simps)
      have "length r < length (c # r0)"
        using assms s brace bracket
        by (auto simp add: parse_value.simps split: if_splits option.splits
                 dest: parse_string_body_length parse_number_length
                 dest!: take_literal_length)
      then have "length r < length s" using length_skip_ws [of s] s by simp
      then show ?thesis using leaf same assms by simp
    qed
  qed
qed

lemma parse_elements_cases:
  assumes "parse_elements (Suc n) s = Some (xs, r)"
  obtains
    (last) x r1 where "parse_value n s = Some (x, r1)" "skip_ws r1 = CHR '']'' # r" "xs = [x]"
  | (more) x r1 r2 xs' where "parse_value n s = Some (x, r1)" "skip_ws r1 = CHR '','' # r2"
      "parse_elements n r2 = Some (xs', r)" "xs = x # xs'"
  using assms
  by (auto simp add: parse_elements.simps split: option.splits list.splits if_splits)

lemma parse_members_cases:
  assumes "parse_members (Suc n) s = Some (ms, r)"
  obtains
    (last) r0 k r1 r2 v r3 where "skip_ws s = CHR 0x22 # r0" "parse_string_body r0 = Some (k, r1)"
      "skip_ws r1 = CHR '':'' # r2" "parse_value n r2 = Some (v, r3)"
      "skip_ws r3 = CHR ''}'' # r" "ms = [(k, v)]"
  | (more) r0 k r1 r2 v r3 r4 ms' where "skip_ws s = CHR 0x22 # r0" "parse_string_body r0 = Some (k, r1)"
      "skip_ws r1 = CHR '':'' # r2" "parse_value n r2 = Some (v, r3)"
      "skip_ws r3 = CHR '','' # r4" "parse_members n r4 = Some (ms', r)" "ms = (k, v) # ms'"
  using assms
  by (auto simp add: parse_members.simps split: option.splits list.splits if_splits
           simp del: parse_string_body.simps)

lemma parse_fuel:
  "parse_value n s = Some (v, r) \<Longrightarrow>
     length r < length s \<and> (\<forall>m. length s - length r < m \<longrightarrow> parse_value m s = Some (v, r))"
  "parse_elements n s = Some (xs, r) \<Longrightarrow>
     length r < length s \<and> (\<forall>m. length s - length r < m \<longrightarrow> parse_elements m s = Some (xs, r))"
  "parse_members n s = Some (ms, r) \<Longrightarrow>
     length r < length s \<and> (\<forall>m. length s - length r < m \<longrightarrow> parse_members m s = Some (ms, r))"
proof (induction n arbitrary: s v r xs ms)
  case 0
  {
    case 1 then show ?case by (simp add: parse_value.simps)
  next
    case 2 then show ?case by (simp add: parse_elements.simps)
  next
    case 3 then show ?case by (simp add: parse_members.simps)
  }
next
  case (Suc n)
  {
    case 1
    from "1" show ?case
    proof (cases rule: parse_value_cases)
      case leaf
      show ?thesis
      proof (intro conjI allI impI)
        show "length r < length s" by (rule leaf)
        fix m assume "length s - length r < m"
        then obtain m' where "m = Suc m'" by (cases m) auto
        then show "parse_value m s = Some (v, r)" using leaf(2) by simp
      qed
    next
      case (object r0 c' r' ms)
      from Suc.IH(3) [OF object(4)]
      have len: "length r < length (c' # r')"
        and fuel: "\<And>m. length (c' # r') - length r < m \<Longrightarrow> parse_members m (c' # r') = Some (ms, r)"
        by auto
      have inner: "length (c' # r') < length s"
        using skip_ws_ConsD [OF object(1)] length_skip_ws [of r0] object(2) by simp
      show ?thesis
      proof (intro conjI allI impI)
        show "length r < length s" using len inner by simp
        fix m assume m: "length s - length r < m"
        then obtain m' where m': "m = Suc m'" by (cases m) auto
        with m len inner have "length (c' # r') - length r < m'" by simp
        then have "parse_members m' (c' # r') = Some (ms, r)" by (rule fuel)
        then show "parse_value m s = Some (v, r)"
          using object by (simp add: m' parse_value.simps)
      qed
    next
      case (array r0 c' r' xs)
      from Suc.IH(2) [OF array(4)]
      have len: "length r < length (c' # r')"
        and fuel: "\<And>m. length (c' # r') - length r < m \<Longrightarrow> parse_elements m (c' # r') = Some (xs, r)"
        by auto
      have inner: "length (c' # r') < length s"
        using skip_ws_ConsD [OF array(1)] length_skip_ws [of r0] array(2) by simp
      show ?thesis
      proof (intro conjI allI impI)
        show "length r < length s" using len inner by simp
        fix m assume m: "length s - length r < m"
        then obtain m' where m': "m = Suc m'" by (cases m) auto
        with m len inner have "length (c' # r') - length r < m'" by simp
        then have "parse_elements m' (c' # r') = Some (xs, r)" by (rule fuel)
        then show "parse_value m s = Some (v, r)"
          using array by (simp add: m' parse_value.simps)
      qed
    qed
  next
    case 2
    from "2" show ?case
    proof (cases rule: parse_elements_cases)
      case (last x r1)
      from Suc.IH(1) [OF last(1)]
      have len: "length r1 < length s"
        and fuel: "\<And>m. length s - length r1 < m \<Longrightarrow> parse_value m s = Some (x, r1)"
        by auto
      have r: "length r < length r1" using skip_ws_ConsD [OF last(2)] .
      show ?thesis
      proof (intro conjI allI impI)
        show "length r < length s" using len r by simp
        fix m assume m: "length s - length r < m"
        then obtain m' where m': "m = Suc m'" by (cases m) auto
        with m len r have "length s - length r1 < m'" by simp
        then have "parse_value m' s = Some (x, r1)" by (rule fuel)
        then show "parse_elements m s = Some (xs, r)"
          using last by (simp add: m' parse_elements.simps)
      qed
    next
      case (more x r1 r2 xs')
      from Suc.IH(1) [OF more(1)]
      have len: "length r1 < length s"
        and fuel: "\<And>m. length s - length r1 < m \<Longrightarrow> parse_value m s = Some (x, r1)"
        by auto
      from Suc.IH(2) [OF more(3)]
      have len2: "length r < length r2"
        and fuel2: "\<And>m. length r2 - length r < m \<Longrightarrow> parse_elements m r2 = Some (xs', r)"
        by auto
      have r2: "length r2 < length r1" using skip_ws_ConsD [OF more(2)] .
      show ?thesis
      proof (intro conjI allI impI)
        show "length r < length s" using len len2 r2 by simp
        fix m assume m: "length s - length r < m"
        then obtain m' where m': "m = Suc m'" by (cases m) auto
        with m len len2 r2 have "length s - length r1 < m'" "length r2 - length r < m'" by simp_all
        then have "parse_value m' s = Some (x, r1)" "parse_elements m' r2 = Some (xs', r)"
          by (simp_all add: fuel fuel2)
        then show "parse_elements m s = Some (xs, r)"
          using more by (simp add: m' parse_elements.simps)
      qed
    qed
  next
    case 3
    from "3" show ?case
    proof (cases rule: parse_members_cases)
      case (last r0 k r1 r2 v r3)
      from Suc.IH(1) [OF last(4)]
      have len: "length r3 < length r2"
        and fuel: "\<And>m. length r2 - length r3 < m \<Longrightarrow> parse_value m r2 = Some (v, r3)"
        by auto
      have before: "length r2 < length s"
        using skip_ws_ConsD [OF last(1)] parse_string_body_length [OF last(2)]
          skip_ws_ConsD [OF last(3)] by simp
      have r: "length r < length r3" using skip_ws_ConsD [OF last(5)] .
      show ?thesis
      proof (intro conjI allI impI)
        show "length r < length s" using len before r by simp
        fix m assume m: "length s - length r < m"
        then obtain m' where m': "m = Suc m'" by (cases m) auto
        with m len before r have "length r2 - length r3 < m'" by simp
        then have "parse_value m' r2 = Some (v, r3)" by (rule fuel)
        then show "parse_members m s = Some (ms, r)"
          using last by (simp add: m' parse_members.simps del: parse_string_body.simps)
      qed
    next
      case (more r0 k r1 r2 v r3 r4 ms')
      from Suc.IH(1) [OF more(4)]
      have len: "length r3 < length r2"
        and fuel: "\<And>m. length r2 - length r3 < m \<Longrightarrow> parse_value m r2 = Some (v, r3)"
        by auto
      from Suc.IH(3) [OF more(6)]
      have len2: "length r < length r4"
        and fuel2: "\<And>m. length r4 - length r < m \<Longrightarrow> parse_members m r4 = Some (ms', r)"
        by auto
      have before: "length r2 < length s"
        using skip_ws_ConsD [OF more(1)] parse_string_body_length [OF more(2)]
          skip_ws_ConsD [OF more(3)] by simp
      have r4: "length r4 < length r3" using skip_ws_ConsD [OF more(5)] .
      show ?thesis
      proof (intro conjI allI impI)
        show "length r < length s" using len len2 before r4 by simp
        fix m assume m: "length s - length r < m"
        then obtain m' where m': "m = Suc m'" by (cases m) auto
        with m len len2 before r4 have "length r2 - length r3 < m'" "length r4 - length r < m'"
          by simp_all
        then have "parse_value m' r2 = Some (v, r3)" "parse_members m' r4 = Some (ms', r)"
          by (simp_all add: fuel fuel2)
        then show "parse_members m s = Some (ms, r)"
          using more by (simp add: m' parse_members.simps del: parse_string_body.simps)
      qed
    qed
  }
qed

text \<open>
  So the fuel that \<open>JSON_parse\<close> starts with loses no parse: a text is rejected only when
  no amount of fuel reads it as a value followed by nothing but white space.
\<close>

theorem JSON_parse_fuel:
  "JSON_parse text = Inr v \<longleftrightarrow> (\<exists>n rest. parse_value n text = Some (v, rest) \<and> skip_ws rest = [])"
proof
  assume "JSON_parse text = Inr v"
  then obtain rest where "parse_value (Suc (length text)) text = Some (v, rest)" "skip_ws rest = []"
    by (auto simp add: JSON_parse_def split: option.splits if_splits)
  then show "\<exists>n rest. parse_value n text = Some (v, rest) \<and> skip_ws rest = []"
    by blast
next
  assume "\<exists>n rest. parse_value n text = Some (v, rest) \<and> skip_ws rest = []"
  then obtain n rest where p: "parse_value n text = Some (v, rest)" and e: "skip_ws rest = []"
    by blast
  from parse_fuel(1) [OF p] have "parse_value (Suc (length text)) text = Some (v, rest)"
    by auto
  with e show "JSON_parse text = Inr v" by (simp add: JSON_parse_def)
qed

section \<open>Properties of storageManager.clear\<close>

text \<open>
  C3, as the code has it. For every non-empty key \<open>k\<close>, \<open>storageManager.clear(k)\<close> removes the
  entry of \<open>k\<close> and leaves the value stored under every other key as it was;
  \<open>storageManager.clear()\<close> without an argument removes every entry, and so does
  \<open>storageManager.clear('')\<close>, whose argument is falsy.
\<close>

theorem storageManager_clear_frame:
  "k \<noteq> [] \<Longrightarrow>
     storageManager_clear (Some k) ls k = None \<and>
     (\<forall>k'. k' \<noteq> k \<longrightarrow> storageManager_clear (Some k) ls k' = ls k') \<and>
     storageManager_clear None ls = Map.empty \<and>
     storageManager_clear (Some []) ls = Map.empty"
  by (simp add: storageManager_clear_def removeItem_def clear_def)

text \<open>The theorem at the key \<open>a\<close> of a store with the two entries \<open>a\<close> and \<open>b\<close>.\<close>

theorem storageManager_clear_frame_witness:
  "''a'' \<noteq> [] \<and>
   storageManager_clear (Some ''a'') [''a'' \<mapsto> ''1'', ''b'' \<mapsto> ''2''] ''a'' = None \<and>
   storageManager_clear (Some ''a'') [''a'' \<mapsto> ''1'', ''b'' \<mapsto> ''2''] ''b'' = Some ''2'' \<and>
   storageManager_clear None [''a'' \<mapsto> ''1'', ''b'' \<mapsto> ''2''] = Map.empty"
  using storageManager_clear_frame [of "''a''" "[''a'' \<mapsto> ''1'', ''b'' \<mapsto> ''2'']"]
  by simp

text \<open>
  C3 as stated, for every string key, fails at the empty key: \<open>storageManager.clear('')\<close>
  does not leave the entry of the other key \<open>a\<close> unchanged.
\<close>

theorem storageManager_clear_empty_key_counterexample:
  "storageManager_clear (Some '''') [''a'' \<mapsto> ''1''] ''a'' \<noteq> [''a'' \<mapsto> ''1''] ''a''"
  by (simp add: storageManager_clear_def clear_def)

section \<open>Properties of themeManager\<close>

text \<open>
  C4, as the code has it. When the value stored under \<open>APP_THEME\<close> is neither \<open>light\<close> nor
  \<open>dark\<close>, \<open>themeManager.get()\<close> returns \<open>light\<close>, with one exception: the empty string is
  falsy, so it is replaced by the operating system's preference and the result is \<open>dark\<close>
  when the system prefers dark.
\<close>

theorem themeManager_get_invalid:
  "getItem ls themeManager_key = Some stored \<Longrightarrow> stored \<noteq> ''light'' \<Longrightarrow> stored \<noteq> ''dark'' \<Longrightarrow>
     themeManager_get matchMedia ls =
       (if stored = [] \<and> matchMedia = Some True then ''dark'' else ''light'')"
  by (simp add: themeManager_get_def Let_def)

text \<open>The theorem at the stored value \<open>blue\<close>, on a system that prefers dark.\<close>

theorem themeManager_get_invalid_witness:
  "getItem [themeManager_key \<mapsto> ''blue''] themeManager_key = Some ''blue'' \<and>
   ''blue'' \<noteq> ''light'' \<and> ''blue'' \<noteq> ''dark'' \<and>
   themeManager_get (Some True) [themeManager_key \<mapsto> ''blue''] = ''light''"
  using themeManager_get_invalid [of "[themeManager_key \<mapsto> ''blue'']" "''blue''" "Some True"]
  by (simp add: getItem_def)

text \<open>
  C4 as stated names the empty string among the stored values that give \<open>light\<close>. With the
  empty string stored and a system that prefers dark, the result is \<open>dark\<close>.
\<close>

theorem themeManager_get_empty_counterexample:
  "themeManager_get (Some True) [themeManager_key \<mapsto> ''''] \<noteq> ''light''"
  by (simp add: themeManager_get_def getItem_def)

text \<open>Without a stored theme the preference of the operating system decides.\<close>

lemma themeManager_get_unset:
  "getItem ls themeManager_key = None \<Longrightarrow>
     themeManager_get matchMedia ls = (if matchMedia = Some True then ''dark'' else ''light'')"
  by (simp add: themeManager_get_def)

lemma themeManager_get_range:
  "themeManager_get mm ls = ''light'' \<or> themeManager_get mm ls = ''dark''"
  by (simp add: themeManager_get_def Let_def getItem_def split: option.splits)

lemma themeManager_get_after_setItem:
  "t = ''light'' \<or> t = ''dark'' \<Longrightarrow> themeManager_get mm (setItem ls themeManager_key t) = t"
  by (auto simp add: themeManager_get_def Let_def getItem_def setItem_def)

lemma themeManager_get_after_toggle:
  "themeManager_get mm (localStorage (themeManager_toggle mm pg)) =
     (if themeManager_get mm (localStorage pg) = ''light'' then ''dark'' else ''light'')"
  by (simp add: themeManager_toggle_def Let_def themeManager_get_after_setItem)

text \<open>
  C6. From every page state and every preference of the operating system, two calls of
  \<open>themeManager.toggle()\<close> in a row leave \<open>themeManager.get()\<close> with the value it had before
  the first.
\<close>

theorem themeManager_toggle_twice:
  "themeManager_get mm (localStorage (themeManager_toggle mm (themeManager_toggle mm pg)))
     = themeManager_get mm (localStorage pg)"
  using themeManager_get_range [of mm "localStorage pg"]
  by (auto simp add: themeManager_get_after_toggle)

section \<open>Properties of scrollBack\<close>

lemma scroll_run_Cons [simp]: "scroll_run (e # evs) st = scroll_run evs (scroll_step e st)"
  by (simp add: scroll_run_def)

lemma scroll_run_Nil [simp]: "scroll_run [] st = st"
  by (simp add: scroll_run_def)

lemma scroll_step_keeps_entry:
  "\<not> is_event_at p e \<Longrightarrow> scrollPositions (scroll_step e st) p = scrollPositions st p"
  by (cases e) (auto simp add: scrollBack_save_def scrollBack_init_timeout_def split: option.splits)

lemma scroll_run_keeps_entry:
  "list_all (\<lambda>e. \<not> is_event_at p e) evs \<Longrightarrow>
     scrollPositions (scroll_run evs st) p = scrollPositions st p"
  by (induction evs arbitrary: st) (simp_all add: scroll_step_keeps_entry)

lemma scroll_step_keeps_absent:
  "\<not> is_save_at p e \<Longrightarrow> scrollPositions st p = None \<Longrightarrow>
     scrollPositions (scroll_step e st) p = None"
  by (cases e) (auto simp add: scrollBack_save_def scrollBack_init_timeout_def split: option.splits)

lemma scroll_run_keeps_absent:
  "list_all (\<lambda>e. \<not> is_save_at p e) evs \<Longrightarrow> scrollPositions st p = None \<Longrightarrow>
     scrollPositions (scroll_run evs st) p = None"
  by (induction evs arbitrary: st) (simp_all add: scroll_step_keeps_absent)

text \<open>
  C7. Let \<open>save()\<close> record the offset \<open>y\<close> for the path \<open>p\<close>, followed by any events that
  are not at \<open>p\<close> (\<open>between\<close>). The first \<open>init()\<close> callback that then runs at \<open>p\<close> issues
  \<open>scrollTo(0, y)\<close> and deletes the entry of \<open>p\<close>, touching no other entry. After any
  further events among which there is no \<open>save()\<close> at \<open>p\<close> (\<open>later\<close>; callbacks at \<open>p\<close> and
  anything at other paths are allowed), an \<open>init()\<close> callback at \<open>p\<close> changes nothing: no
  scroll is issued and the registry stays as it is.
\<close>

theorem scrollBack_at_most_once:
  assumes between: "list_all (\<lambda>e. \<not> is_event_at p e) between"
      and later: "list_all (\<lambda>e. \<not> is_save_at p e) later"
  shows "let st1 = scroll_run (Save p y # between) st;
             st2 = scrollBack_init_timeout p st1;
             st3 = scroll_run later st2
         in scrollTo_calls st2 = scrollTo_calls st1 @ [y] \<and>
            scrollPositions st2 = (scrollPositions st1)(p := None) \<and>
            scrollBack_init_timeout p st3 = st3"
proof -
  define st1 where "st1 = scroll_run (Save p y # between) st"
  define st2 where "st2 = scrollBack_init_timeout p st1"
  define st3 where "st3 = scroll_run later st2"
  have saved: "scrollPositions st1 p = Some y"
    using between by (simp add: st1_def scroll_run_keeps_entry scrollBack_save_def)
  then have consumed:
    "scrollTo_calls st2 = scrollTo_calls st1 @ [y]"
    "scrollPositions st2 = (scrollPositions st1)(p := None)"
    by (simp_all add: st2_def scrollBack_init_timeout_def)
  then have "scrollPositions st2 p = None" by simp
  with later have "scrollPositions st3 p = None"
    by (simp add: st3_def scroll_run_keeps_absent)
  then have "scrollBack_init_timeout p st3 = st3"
    by (simp add: scrollBack_init_timeout_def)
  with consumed show ?thesis
    by (simp add: st1_def st2_def st3_def Let_def)
qed

text \<open>
  The theorem on a run that saves offset 120 at \<open>/p\<close>, visits \<open>/q\<close>, comes back to \<open>/p\<close>,
  and later runs \<open>init()\<close> at \<open>/p\<close> again.
\<close>

theorem scrollBack_at_most_once_witness:
  "list_all (\<lambda>e. \<not> is_event_at ''/p'' e) [Save ''/q'' (7::nat), Init ''/q''] \<and>
   list_all (\<lambda>e. \<not> is_save_at ''/p'' e) [Init ''/p'', Save ''/q'' (9::nat)] \<and>
   (let st1 = scroll_run [Save ''/p'' (120::nat), Save ''/q'' 7, Init ''/q'']
                \<lparr>scrollPositions = Map.empty, scrollTo_calls = []\<rparr>;
        st2 = scrollBack_init_timeout ''/p'' st1;
        st3 = scroll_run [Init ''/p'', Save ''/q'' 9] st2
    in scrollTo_calls st1 = [7] \<and> scrollTo_calls st2 = [7, 120] \<and>
       scrollPositions st2 ''/p'' = None \<and>
       scrollBack_init_timeout ''/p'' st3 = st3)"
  using scrollBack_at_most_once
    [of "''/p''" "[Save ''/q'' (7::nat), Init ''/q'']" "[Init ''/p'', Save ''/q'' (9::nat)]" "120::nat"
        "\<lparr>scrollPositions = Map.empty, scrollTo_calls = []\<rparr>"]
  by (simp add: Let_def scrollBack_save_def scrollBack_init_timeout_def)

section \<open>Properties of audioPlayer\<close>

lemma audio_run_Nil [simp]: "audio_run proto [] st = st"
  by (simp add: audio_run_def)

lemma audio_run_snoc [simp]:
  "audio_run proto (cs @ [(url, status)]) st =
     snd (audioPlayer proto url status (audio_run proto cs st))"
  by (simp add: audio_run_def)

lemma audioPlayer_cached:
  assumes "urls st url = Some h"
  shows "fst (audioPlayer proto url status st) = None \<and>
         urls (snd (audioPlayer proto url status st)) = urls st \<and>
         elements (snd (audioPlayer proto url status st)) = elements st \<and>
         (\<exists>acts. calls (snd (audioPlayer proto url status st)) = calls st @ map (Pair h) acts)"
proof -
  have "[(h, Play)] = map (Pair h) [Play]" "[(h, Pause)] = map (Pair h) [Pause]"
    "[(h, Pause), (h, SetCurrentTime 0)] = map (Pair h) [Pause, SetCurrentTime 0]"
    "[] = map (Pair h) ([] :: element_call list)"
    by simp_all
  then show ?thesis using assms
    by (cases "case status of None \<Rightarrow> play | Some s \<Rightarrow> s")
       (auto simp add: audioPlayer_def Let_def simp del: list.map)
qed

lemma audioPlayer_constructs:
  "elements (snd (audioPlayer proto url status st)) =
     (if url = [] \<or> urls st url \<noteq> None \<or> proto (Obj []) url \<noteq> None then elements st
      else elements st @ [url])"
  unfolding audioPlayer_def Let_def
  by (auto split: option.splits status.splits)

lemma audioPlayer_inv: "audio_inv st \<Longrightarrow> audio_inv (snd (audioPlayer proto url status st))"
  unfolding audio_inv_def audioPlayer_def Let_def
  by (auto simp add: nth_append less_Suc_eq split: option.splits status.splits)

lemma audio_run_inv: "audio_inv (audio_run proto cs audio_initial)"
proof (induction cs rule: rev_induct)
  case Nil
  show ?case by (simp add: audio_inv_def audio_initial_def)
next
  case (snoc c cs)
  then show ?case by (cases c) (simp add: audioPlayer_inv)
qed

lemma audio_inv_distinct: "audio_inv st \<Longrightarrow> distinct (elements st)"
  unfolding audio_inv_def distinct_conv_nth
  by (metis option.inject)

lemma audio_inv_handle:
  "audio_inv st \<Longrightarrow> urls st url = Some h \<Longrightarrow> h < length (elements st) \<and> elements st ! h = url"
  by (simp add: audio_inv_def)

lemma audioPlayer_elements:
  assumes "audio_inv st"
  shows "set (elements (snd (audioPlayer proto url status st))) =
           (if url = [] \<or> proto (Obj []) url \<noteq> None then set (elements st)
            else insert url (set (elements st)))"
proof (cases "urls st url")
  case None
  then show ?thesis by (simp add: audioPlayer_constructs)
next
  case (Some h)
  with assms have "url \<in> set (elements st)"
    using audio_inv_handle nth_mem by metis
  with Some show ?thesis by (auto simp add: audioPlayer_constructs)
qed

lemma audio_run_elements:
  "set (elements (audio_run proto cs audio_initial)) =
     {url \<in> fst ` set cs. url \<noteq> [] \<and> proto (Obj []) url = None}"
proof (induction cs rule: rev_induct)
  case Nil
  show ?case by (simp add: audio_initial_def)
next
  case (snoc c cs)
  then show ?case
    by (cases c) (auto simp add: audioPlayer_elements audio_run_inv)
qed

text \<open>
  C8. In the state \<open>st\<close> reached from the empty registry by any sequence \<open>cs\<close> of calls of
  \<open>audioPlayer\<close>, under any prototype chain: no two of the elements constructed have the
  same URL, and the URLs for which one was constructed are among the non-empty URLs of the
  calls (all of them but the names of inherited members), so there is at most one handle
  for each distinct URL. A further call for a URL that the registry holds, with any
  status or none, throws nothing, leaves the registry and the list of constructed
  elements as they are, and whatever it does, it does to the cached handle \<open>h\<close>, which is
  the element constructed with that URL as its \<open>src\<close>.
\<close>

theorem audioPlayer_memoized:
  "let st = audio_run proto cs audio_initial
   in distinct (elements st) \<and>
      set (elements st) = {url \<in> fst ` set cs. url \<noteq> [] \<and> proto (Obj []) url = None} \<and>
      (\<forall>url status h. urls st url = Some h \<longrightarrow>
         h < length (elements st) \<and> elements st ! h = url \<and>
         fst (audioPlayer proto url status st) = None \<and>
         urls (snd (audioPlayer proto url status st)) = urls st \<and>
         elements (snd (audioPlayer proto url status st)) = elements st \<and>
         (\<exists>acts. calls (snd (audioPlayer proto url status st)) = calls st @ map (Pair h) acts))"
  unfolding Let_def
  using audio_run_inv [of proto cs]
  by (intro conjI allI impI audio_inv_distinct audio_run_elements)
     (simp_all add: audio_inv_handle audioPlayer_cached)

text \<open>
  The theorem after two calls for \<open>a.mp3\<close> and one for \<open>b.mp3\<close>: two elements exist, and a
  \<open>stop\<close> for \<open>a.mp3\<close> constructs nothing and acts on element 0.
\<close>

theorem audioPlayer_memoized_witness:
  "(let st = audio_run standard_prototypes
               [(''a.mp3'', Some play), (''a.mp3'', None), (''b.mp3'', Some load)] audio_initial
    in urls st ''a.mp3'' = Some 0 \<and>
       elements st = [''a.mp3'', ''b.mp3''] \<and>
       elements (snd (audioPlayer standard_prototypes ''a.mp3'' (Some stop) st)) = elements st \<and>
       urls (snd (audioPlayer standard_prototypes ''a.mp3'' (Some stop) st)) = urls st)"
proof -
  let ?st = "audio_run standard_prototypes
               [(''a.mp3'', Some play), (''a.mp3'', None), (''b.mp3'', Some load)] audio_initial"
  have a: "urls ?st ''a.mp3'' = Some 0" and e: "elements ?st = [''a.mp3'', ''b.mp3'']"
    by (simp_all add: audio_run_def audioPlayer_def audio_initial_def standard_prototypes_def
          Object_prototype_def)
  from audioPlayer_memoized
         [of standard_prototypes "[(''a.mp3'', Some play), (''a.mp3'', None), (''b.mp3'', Some load)]"] a
  have "elements (snd (audioPlayer standard_prototypes ''a.mp3'' (Some stop) ?st)) = elements ?st \<and>
        urls (snd (audioPlayer standard_prototypes ''a.mp3'' (Some stop) ?st)) = urls ?st"
    unfolding Let_def by blast
  with a e show ?thesis unfolding Let_def by blast
qed

text \<open>
  A URL that names an inherited member: \<open>audioPlayer('toString')\<close> constructs no element
  and throws.
\<close>

lemma audioPlayer_inherited_name:
  "audioPlayer standard_prototypes ''toString'' None audio_initial = (Some TypeError, audio_initial)"
  by (simp add: audioPlayer_def audio_initial_def standard_prototypes_def Object_prototype_def)

section \<open>Properties of storageManager.get and storageManager.set\<close>


lemma JSON_parse_null: "JSON_parse ''null'' = Inr Null"
  by code_simp

lemma JSON_parse_undefined: "JSON_parse ''undefined'' = Inl SyntaxError"
  by code_simp

text \<open>
  The \<open>catch\<close> of \<open>storageManager.get\<close> answers the default for every exception of the
  \<open>try\<close> block, and so does a key without an entry, which \<open>JSON.parse\<close> reads as \<open>null\<close>.
\<close>

lemma storageManager_get_catches:
  "storageManager_get_try ls key d = Inl e \<Longrightarrow> storageManager_get ls key d = d"
  by (simp add: storageManager_get_def)

lemma storageManager_get_absent:
  "getItem ls key = None \<Longrightarrow> storageManager_get ls key d = d"
  by (simp add: storageManager_get_def storageManager_get_try_def ToString_null_def
        JSON_parse_null or_default_def)

lemma storageManager_get_default_readme:
  "storageManager_get Map.empty ''my-data-2'' (Str ''User'') = Str ''User''"
  by (simp add: storageManager_get_absent getItem_def)

lemma storageManager_get_malformed:
  "storageManager_get [''k'' \<mapsto> ''{oops''] ''k'' d = d"
proof -
  have "JSON_parse ''{oops'' = Inl SyntaxError" by code_simp
  then show ?thesis
    by (simp add: storageManager_get_def storageManager_get_try_def ToString_null_def getItem_def)
qed

lemma storageManager_get_cases:
  "storageManager_get ls key d =
     (case JSON_parse (ToString_null (getItem ls key)) of
        Inl error \<Rightarrow> d
      | Inr v \<Rightarrow> or_default d v)"
  by (simp add: storageManager_get_def storageManager_get_try_def split: sum.splits)




text \<open>
  C10. For every key \<open>k\<close> and default \<open>d\<close>, \<open>storageManager.set(k, undefined)\<close> stores the
  text \<open>undefined\<close> under \<open>k\<close> (the model of \<open>set\<close> has no exception), and
  \<open>storageManager.get(k, d)\<close> then returns \<open>d\<close>, because \<open>JSON.parse\<close> throws on that text.
\<close>

theorem storageManager_set_undefined:
  "getItem (storageManager_set ls k Undefined) k = Some ''undefined'' \<and>
   JSON_parse ''undefined'' = Inl SyntaxError \<and>
   storageManager_get (storageManager_set ls k Undefined) k d = d"
  by (simp add: storageManager_set_def storageManager_get_def storageManager_get_try_def
        JSON_stringify_def ToString_undefined_def ToString_null_def getItem_def setItem_def
        JSON_parse_undefined)

section \<open>Properties of qsm\<close>

text \<open>The token of the readme: \<open>qsm.gen({ a: 1 })\<close> is \<open>?eyJhIjoxfQ==\<close>.\<close>

lemma qsm_gen_readme: "qsm_gen (Obj [(''a'', Num 1)]) [] = ''?eyJhIjoxfQ==''"
  by code_simp

lemma qsm_gen_prefix_readme: "qsm_gen (Obj [(''a'', Num 1)]) ''/my-page'' = ''/my-page?eyJhIjoxfQ==''"
  by code_simp

lemma qsm_decode_readme: "qsm_decode ''?eyJhIjoxfQ=='' = Inr (Obj [(''a'', Num 1)])"
  by code_simp


lemma qsm_read_catches:
  "qsm_read_try proto search key d = Inl e \<Longrightarrow> qsm_read proto search key d = d"
  by (simp add: qsm_read_def)

lemma qsm_read_undecodable:
  "qsm_decode search = Inl e \<Longrightarrow> qsm_read proto search key d = d"
  by (simp add: qsm_read_def qsm_read_try_def)








text \<open>
  C5, at the example of the readme. The location is \<open>/my-page?eyJhIjoxfQ==\<close>, whose
  payload is \<open>{ a: 1 }\<close>. The readme gives \<open>qsm.read('b', 2)\<close> as \<open>2\<close>, the default for a key
  that is not found; the code returns the whole payload.
\<close>

theorem qsm_read_missing_key:
  "qsm_read standard_prototypes ''?eyJhIjoxfQ=='' (Some ''b'') (Num 2) = Obj [(''a'', Num 1)]"
  by code_simp

text \<open>
  A key that the payload does not have itself, but inherits, is looked up: with the
  standard prototypes \<open>qsm.read('toString', 2)\<close> is the inherited function.
\<close>

lemma qsm_read_inherited_key:
  "qsm_read standard_prototypes ''?eyJhIjoxfQ=='' (Some ''toString'') (Num 2) =
     Builtin ''Object.prototype.toString''"
  by code_simp


end
